theory Spec2Isabelle
  imports Main
begin

section \<open>The backend entry point: backend_cpp/src/main.cpp\<close>

text \<open>
  The program is one function, \<^verbatim>\<open>int main()\<close>. It writes to the two standard streams,
  constructs a \<^verbatim>\<open>cv::VideoCapture\<close> and a \<^verbatim>\<open>cv::Mat\<close>, runs a loop whose body is
  \<^verbatim>\<open>break;\<close>, and wraps everything after the first two output statements in
  \<^verbatim>\<open>try { ... } catch (const std::exception& e) { ... }\<close>.

  Everything the program does not define itself is a parameter of the model: the value of the
  macro \<^verbatim>\<open>CV_VERSION\<close>, what \<^verbatim>\<open>cap.isOpened()\<close> answers, the value of a default-constructed
  \<^verbatim>\<open>cv::Mat\<close>, the command line and environment the process was started with, and, for each
  statement of the body of \<^verbatim>\<open>main\<close>, whether executing it throws (and what).
\<close>

subsection \<open>Thrown values, exit status, environment\<close>

text \<open>
  A thrown value either derives from \<^verbatim>\<open>std::exception\<close>, and then carries the text that
  \<^verbatim>\<open>what()\<close> returns, or it is anything else (an \<^verbatim>\<open>int\<close>, a string, a foreign class).
\<close>

datatype thrown = Std_exception string | Other_thrown

text \<open>The statements of the body of \<^verbatim>\<open>main\<close> that call library code, by source line:
  6, 9, 18, 19 (the condition), 20, 24, 26.\<close>

datatype point =
  At_banner | At_version | At_capture | At_isOpened | At_camera_error | At_initialized | At_frame

definition points :: "point list" where
  "points = [At_banner, At_version, At_capture, At_isOpened, At_camera_error, At_initialized, At_frame]"

text \<open>How a run of \<^verbatim>\<open>main\<close> ends: by a \<^verbatim>\<open>return\<close> statement, or by a thrown value
  leaving \<^verbatim>\<open>main\<close>.\<close>

datatype status = Exited int | Uncaught thrown

text \<open>
  The surroundings of one run. \<open>argv\<close> and \<open>environ\<close> are what the process was started with;
  \<open>CV_VERSION\<close> is the string the macro of that name expands to; \<open>camera_opens\<close> is what
  \<^verbatim>\<open>cap.isOpened()\<close> answers; \<open>Mat\<close> is the value of a default-constructed \<^verbatim>\<open>cv::Mat\<close>;
  \<open>fault p\<close> is the value the statement at \<open>p\<close> throws, if it throws.
\<close>

record 'mat env =
  argv :: "string list"
  environ :: "string list"
  CV_VERSION :: string
  camera_opens :: bool
  Mat :: 'mat
  fault :: "point \<Rightarrow> thrown option"

definition fault_free :: "'mat env \<Rightarrow> bool" where
  "fault_free e = list_all (\<lambda>p. fault e p = None) points"

subsection \<open>Program state\<close>

text \<open>
  The two streams are character sequences. \<open>cap\<close> and \<open>frame\<close> are the two locals of the
  \<^verbatim>\<open>try\<close> block (\<open>None\<close> outside their lifetime); \<open>cap\<close> holds whether the capture is open.
  \<open>iterations\<close> and \<open>caught\<close> are counters the source does not have: the number of times the
  loop body was entered and the number of times the \<^verbatim>\<open>catch\<close> block was entered.
\<close>

record 'mat state =
  cout :: string
  cerr :: string
  cap :: "bool option"
  frame :: "'mat option"
  iterations :: nat
  caught :: nat

definition start :: "'mat state" where
  "start = \<lparr>cout = [], cerr = [], cap = None, frame = None, iterations = 0, caught = 0\<rparr>"

text \<open>\<^verbatim>\<open>os << std::endl\<close> appends a line feed.\<close>

definition endl :: "string \<Rightarrow> string" where
  "endl os = os @ [CHR 0x0A]"

subsection \<open>Statements\<close>

text \<open>A statement either completes (\<open>None\<close>) or throws (\<open>Some t\<close>); what was written to the
  streams before a throw stays written. A statement that throws has no other effect.\<close>

type_synonym 'mat stmt = "'mat state \<Rightarrow> thrown option \<times> 'mat state"

definition stmt :: "'mat env \<Rightarrow> point \<Rightarrow> ('mat state \<Rightarrow> 'mat state) \<Rightarrow> 'mat stmt" where
  "stmt e p f s = (case fault e p of None \<Rightarrow> (None, f s) | Some t \<Rightarrow> (Some t, s))"

text \<open>A sequence of statements stops at the first throw.\<close>

fun block :: "'mat stmt list \<Rightarrow> 'mat stmt" where
  "block [] s = (None, s)"
| "block (c # cs) s = (case c s of (None, s') \<Rightarrow> block cs s' | (Some t, s') \<Rightarrow> (Some t, s'))"

text \<open>Line 6.\<close>

definition banner_text :: string where
  "banner_text = ''[INFO] Starting PENS-KAIT 2026 C++ Backend...''"

definition banner :: "'mat env \<Rightarrow> 'mat stmt" where
  "banner e = stmt e At_banner (\<lambda>s. s\<lparr>cout := endl (cout s @ banner_text)\<rparr>)"

text \<open>Line 9.\<close>

definition version_text :: "'mat env \<Rightarrow> string" where
  "version_text e = ''[INFO] OpenCV Version: '' @ CV_VERSION e"

definition version :: "'mat env \<Rightarrow> 'mat stmt" where
  "version e = stmt e At_version (\<lambda>s. s\<lparr>cout := endl (cout s @ version_text e)\<rparr>)"

text \<open>Line 18: \<^verbatim>\<open>cv::VideoCapture cap(0);\<close>\<close>

definition capture :: "'mat env \<Rightarrow> 'mat stmt" where
  "capture e = stmt e At_capture (\<lambda>s. s\<lparr>cap := Some (camera_opens e)\<rparr>)"

text \<open>Lines 19 to 22: \<^verbatim>\<open>if (!cap.isOpened()) { std::cerr << ... << std::endl; }\<close>. The
  \<^verbatim>\<open>return -1\<close> of line 21 is commented out.\<close>

definition camera_error_text :: string where
  "camera_error_text = ''[ERROR] Could not open camera''"

definition camera_error :: "'mat env \<Rightarrow> 'mat stmt" where
  "camera_error e = stmt e At_camera_error (\<lambda>s. s\<lparr>cerr := endl (cerr s @ camera_error_text)\<rparr>)"

definition check_camera :: "'mat env \<Rightarrow> 'mat stmt" where
  "check_camera e s =
     (case fault e At_isOpened of
        Some t \<Rightarrow> (Some t, s)
      | None \<Rightarrow> if cap s \<noteq> Some True then camera_error e s else (None, s))"

text \<open>Line 24.\<close>

definition initialized_text :: string where
  "initialized_text = ''[INFO] Backend Core Initialized. Waiting for tasks...''"

definition initialized :: "'mat env \<Rightarrow> 'mat stmt" where
  "initialized e = stmt e At_initialized (\<lambda>s. s\<lparr>cout := endl (cout s @ initialized_text)\<rparr>)"

text \<open>Line 26: \<^verbatim>\<open>cv::Mat frame;\<close>\<close>

definition declare_frame :: "'mat env \<Rightarrow> 'mat stmt" where
  "declare_frame e = stmt e At_frame (\<lambda>s. s\<lparr>frame := Some (Mat e)\<rparr>)"

subsection \<open>The loop\<close>

text \<open>Lines 27 to 39: \<^verbatim>\<open>while (true) { break; }\<close>; every other line of the body is a
  comment. The loop is the general \<^verbatim>\<open>while (true)\<close>: it repeats its body until the body
  breaks, and returns nothing if that never happens.\<close>

datatype ctrl = Break | Continue

definition loop_body :: "'mat state \<Rightarrow> ctrl \<times> 'mat state" where
  "loop_body s = (Break, s\<lparr>iterations := iterations s + 1\<rparr>)"

partial_function (option) while_true :: "'mat state \<Rightarrow> 'mat state option" where
  "while_true s = (case loop_body s of (Break, s') \<Rightarrow> Some s' | (Continue, s') \<Rightarrow> while_true s')"

declare while_true.simps [code]

subsection \<open>The guarded region and main\<close>

text \<open>Lines 11 to 39, up to the closing brace of the \<^verbatim>\<open>try\<close> block: the state returned is
  the one in which the locals are still alive.\<close>

definition guarded :: "'mat env \<Rightarrow> 'mat state \<Rightarrow> (thrown option \<times> 'mat state) option" where
  "guarded e s =
     (case block [capture e, check_camera e, initialized e, declare_frame e] s of
        (Some t, s') \<Rightarrow> Some (Some t, s')
      | (None, s') \<Rightarrow> map_option (Pair None) (while_true s'))"

text \<open>Leaving the block, normally or by a throw, ends the lifetime of its locals.\<close>

definition scope_exit :: "'mat state \<Rightarrow> 'mat state" where
  "scope_exit s = s\<lparr>cap := None, frame := None\<rparr>"

definition try_block :: "'mat env \<Rightarrow> 'mat state \<Rightarrow> (thrown option \<times> 'mat state) option" where
  "try_block e s = map_option (\<lambda>(x, s'). (x, scope_exit s')) (guarded e s)"

text \<open>Lines 41 to 44: the body of the \<^verbatim>\<open>catch\<close> clause. It is not a place where a throw is
  injected: \<^verbatim>\<open>what()\<close> is \<^verbatim>\<open>noexcept\<close>, and the program never changes the exception mask of
  \<^verbatim>\<open>std::cerr\<close>.\<close>

definition exception_text :: "string \<Rightarrow> string" where
  "exception_text what = ''[ERROR] Exception: '' @ what"

definition handler :: "string \<Rightarrow> 'mat state \<Rightarrow> status \<times> 'mat state" where
  "handler what s =
     (Exited 1, s\<lparr>cerr := endl (cerr s @ exception_text what), caught := caught s + 1\<rparr>)"

text \<open>Lines 5 to 47. The clause \<^verbatim>\<open>catch (const std::exception& e)\<close> matches a thrown value
  only if it derives from \<^verbatim>\<open>std::exception\<close>.\<close>

definition main :: "'mat env \<Rightarrow> 'mat state \<Rightarrow> (status \<times> 'mat state) option" where
  "main e s =
     (case block [banner e, version e] s of
        (Some t, s1) \<Rightarrow> Some (Uncaught t, s1)
      | (None, s1) \<Rightarrow>
          (case try_block e s1 of
             None \<Rightarrow> None
           | Some (None, s2) \<Rightarrow> Some (Exited 0, s2)
           | Some (Some (Std_exception what), s2) \<Rightarrow> Some (handler what s2)
           | Some (Some Other_thrown, s2) \<Rightarrow> Some (Uncaught Other_thrown, s2)))"

text \<open>A run of the process: \<^verbatim>\<open>main\<close> from empty streams.\<close>

definition run :: "'mat env \<Rightarrow> (status \<times> 'mat state) option" where
  "run e = main e start"

text \<open>What can be seen of a finished run from outside: exit status and the two streams.\<close>

definition observable :: "(status \<times> 'mat state) option \<Rightarrow> (status \<times> string \<times> string) option" where
  "observable r = map_option (\<lambda>(st, s). (st, cout s, cerr s)) r"

text \<open>Two states, possibly over different frame types, that agree on everything but \<open>frame\<close>.\<close>

definition agree :: "'a state \<Rightarrow> 'b state \<Rightarrow> bool" where
  "agree s s' \<longleftrightarrow>
     cout s = cout s' \<and> cerr s = cerr s' \<and> cap s = cap s' \<and> iterations s = iterations s'
       \<and> caught s = caught s'"

subsection \<open>Lines of a stream\<close>

text \<open>The lines of a character sequence: every line feed ends a line, and characters after
  the last line feed make a line of their own.\<close>

fun lines_of :: "string \<Rightarrow> string list" where
  "lines_of [] = []"
| "lines_of (c # cs) =
     (if c = CHR 0x0A then [] # lines_of cs
      else (case lines_of cs of [] \<Rightarrow> [[c]] | l # ls \<Rightarrow> (c # l) # ls))"

subsection \<open>Example environments\<close>

definition throw_at :: "point \<Rightarrow> thrown \<Rightarrow> point \<Rightarrow> thrown option" where
  "throw_at p t = (\<lambda>q. if q = p then Some t else None)"

definition example_env :: "bool \<Rightarrow> (point \<Rightarrow> thrown option) \<Rightarrow> nat env" where
  "example_env opens f =
     \<lparr>argv = [''backend''], environ = [''HOME=/root''], CV_VERSION = ''4.5.1'',
      camera_opens = opens, Mat = 0, fault = f\<rparr>"

section \<open>Auxiliary facts\<close>

lemma while_true_eq: "while_true s = Some (s\<lparr>iterations := iterations s + 1\<rparr>)"
  by (subst while_true.simps) (simp add: loop_body_def)

lemma fault_free_None: "fault_free e \<Longrightarrow> fault e p = None"
  by (cases p) (simp_all add: fault_free_def points_def)

lemmas stmt_defs = stmt_def banner_def version_def capture_def check_camera_def camera_error_def
  initialized_def declare_frame_def

lemmas run_defs = run_def main_def try_block_def guarded_def stmt_defs
        while_true_eq scope_exit_def start_def endl_def handler_def

lemma run_fault_free:
  "fault_free e \<Longrightarrow> run e = Some (Exited 0,
     \<lparr>cout = banner_text @ [CHR 0x0A] @ version_text e @ [CHR 0x0A] @ initialized_text @ [CHR 0x0A],
      cerr = (if camera_opens e then [] else camera_error_text @ [CHR 0x0A]),
      cap = None, frame = None, iterations = 1, caught = 0\<rparr>)"
  by (simp add: run_defs fault_free_None)

lemma run_total: "\<exists>st s. run e = Some (st, s)"
  by (auto simp add: run_defs split: option.splits thrown.splits)

lemma run_cases:
  "run e = Some (st, s) \<Longrightarrow>
     (st = Exited 0 \<and> caught s = 0) \<or> (st = Exited 1 \<and> caught s = 1) \<or> (\<exists>t. st = Uncaught t \<and> caught s = 0)"
  by (auto simp add: run_defs split: option.splits thrown.splits if_splits)

lemma lines_of_line: "CHR 0x0A \<notin> set l \<Longrightarrow> lines_of (l @ CHR 0x0A # r) = l # lines_of r"
  by (induction l) auto

lemma prelude_state:
  "block [banner e, version e] start = (x, s1) \<Longrightarrow> cerr s1 = [] \<and> caught s1 = 0 \<and> iterations s1 = 0 \<and> frame s1 = None \<and> cap s1 = None"
  by (auto simp add: run_defs split: option.splits)

lemma guarded_state:
  "guarded e s1 = Some (x, s2) \<Longrightarrow>
     caught s2 = caught s1 \<and> (cerr s2 = cerr s1 \<or> cerr s2 = cerr s1 @ camera_error_text @ [CHR 0x0A])
     \<and> (\<exists>r. cout s2 = cout s1 @ r)"
  by (auto simp add: run_defs split: option.splits if_splits)

lemma no_lf_texts:
  "CHR 0x0A \<notin> set banner_text" "CHR 0x0A \<notin> set initialized_text" "CHR 0x0A \<notin> set camera_error_text"
  "CHR 0x0A \<notin> set (version_text e) \<longleftrightarrow> CHR 0x0A \<notin> set (CV_VERSION e)"
  "CHR 0x0A \<notin> set (exception_text what) \<longleftrightarrow> CHR 0x0A \<notin> set what"
  by (simp_all add: banner_text_def initialized_text_def camera_error_text_def version_text_def exception_text_def)

lemma run_Exited_0:
  "run e = Some (Exited 0, s) \<Longrightarrow>
     cout s = banner_text @ [CHR 0x0A] @ version_text e @ [CHR 0x0A] @ initialized_text @ [CHR 0x0A]"
  by (auto simp add: run_defs split: option.splits thrown.splits if_splits)

lemma stmt_agree:
  assumes "fault e1 p = fault e2 p" and "\<And>s s'. agree s s' \<Longrightarrow> agree (f s) (g s')"
  shows "rel_fun agree (rel_prod (=) agree) (stmt e1 p f) (stmt e2 p g)"
  using assms by (cases "fault e2 p") (simp_all add: rel_fun_def stmt_def)

lemma block_agree:
  fixes cs :: "'a stmt list" and cs' :: "'b stmt list"
  assumes "list_all2 (rel_fun agree (rel_prod (=) agree)) cs cs'"
  shows "rel_fun agree (rel_prod (=) agree) (block cs) (block cs')"
  using assms
proof (induction rule: list_all2_induct)
  case Nil
  show ?case by (simp add: rel_fun_def)
next
  case (Cons c cs c' cs')
  show ?case
  proof (rule rel_funI)
    fix s :: "'a state" and s' :: "'b state" assume "agree s s'"
    with Cons.hyps have "rel_prod (=) agree (c s) (c' s')"
      by (simp add: rel_fun_def)
    then show "rel_prod (=) agree (block (c # cs) s) (block (c' # cs') s')"
      using Cons.IH by (cases "c s"; cases "c' s'") (auto simp add: rel_fun_def split: option.splits)
  qed
qed

lemma statements_agree:
  fixes e1 :: "'a env" and e2 :: "'b env"
  assumes "CV_VERSION e1 = CV_VERSION e2" and "camera_opens e1 = camera_opens e2" and "fault e1 = fault e2"
  shows "rel_fun agree (rel_prod (=) agree) (banner e1) (banner e2)"
    and "rel_fun agree (rel_prod (=) agree) (version e1) (version e2)"
    and "rel_fun agree (rel_prod (=) agree) (capture e1) (capture e2)"
    and "rel_fun agree (rel_prod (=) agree) (camera_error e1) (camera_error e2)"
    and "rel_fun agree (rel_prod (=) agree) (initialized e1) (initialized e2)"
    and "rel_fun agree (rel_prod (=) agree) (declare_frame e1) (declare_frame e2)"
  unfolding banner_def version_def capture_def camera_error_def initialized_def declare_frame_def
  using assms by (auto intro!: stmt_agree simp add: agree_def version_text_def)

lemma check_camera_agree:
  fixes e1 :: "'a env" and e2 :: "'b env"
  assumes "CV_VERSION e1 = CV_VERSION e2" and "camera_opens e1 = camera_opens e2" and "fault e1 = fault e2"
  shows "rel_fun agree (rel_prod (=) agree) (check_camera e1) (check_camera e2)"
proof (rule rel_funI)
  fix s :: "'a state" and s' :: "'b state" assume a: "agree s s'"
  then have c: "cap s = cap s'"
    by (simp add: agree_def)
  have "rel_prod (=) agree (camera_error e1 s) (camera_error e2 s')"
    using statements_agree(4) [OF assms] a by (simp add: rel_fun_def)
  then show "rel_prod (=) agree (check_camera e1 s) (check_camera e2 s')"
    using a c assms(3) by (cases "fault e2 At_isOpened") (simp_all add: check_camera_def)
qed

lemma guarded_agree:
  fixes e1 :: "'a env" and e2 :: "'b env"
  assumes "CV_VERSION e1 = CV_VERSION e2" and "camera_opens e1 = camera_opens e2" and "fault e1 = fault e2"
    and "agree s s'"
  shows "rel_option (rel_prod (=) agree) (guarded e1 s) (guarded e2 s')"
proof -
  have "rel_fun agree (rel_prod (=) agree)
          (block [capture e1, check_camera e1, initialized e1, declare_frame e1])
          (block [capture e2, check_camera e2, initialized e2, declare_frame e2])"
    using statements_agree [OF assms(1-3)] check_camera_agree [OF assms(1-3)]
    by (intro block_agree) simp
  then have "rel_prod (=) agree
          (block [capture e1, check_camera e1, initialized e1, declare_frame e1] s)
          (block [capture e2, check_camera e2, initialized e2, declare_frame e2] s')"
    using assms(4) by (simp add: rel_fun_def)
  then show ?thesis
    unfolding guarded_def
    by (cases "block [capture e1, check_camera e1, initialized e1, declare_frame e1] s";
        cases "block [capture e2, check_camera e2, initialized e2, declare_frame e2] s'")
       (auto simp add: while_true_eq agree_def split: option.splits)
qed

lemma try_block_agree:
  fixes e1 :: "'a env" and e2 :: "'b env"
  assumes "CV_VERSION e1 = CV_VERSION e2" and "camera_opens e1 = camera_opens e2" and "fault e1 = fault e2"
    and "agree s s'"
  shows "rel_option (rel_prod (=) agree) (try_block e1 s) (try_block e2 s')"
  using guarded_agree [OF assms]
  by (cases "guarded e1 s"; cases "guarded e2 s'")
     (auto simp add: try_block_def scope_exit_def agree_def)

lemma main_agree:
  fixes e1 :: "'a env" and e2 :: "'b env"
  assumes "CV_VERSION e1 = CV_VERSION e2" and "camera_opens e1 = camera_opens e2" and "fault e1 = fault e2"
    and "agree s s'"
  shows "rel_option (rel_prod (=) agree) (main e1 s) (main e2 s')"
proof -
  have "rel_fun agree (rel_prod (=) agree) (block [banner e1, version e1]) (block [banner e2, version e2])"
    using statements_agree [OF assms(1-3)] by (intro block_agree) simp
  then have p: "rel_prod (=) agree (block [banner e1, version e1] s) (block [banner e2, version e2] s')"
    using assms(4) by (simp add: rel_fun_def)
  obtain x s1 where b1: "block [banner e1, version e1] s = (x, s1)"
    by (cases "block [banner e1, version e1] s")
  obtain x' s1' where b2: "block [banner e2, version e2] s' = (x', s1')"
    by (cases "block [banner e2, version e2] s'")
  from p b1 b2 have x: "x' = x" and a1: "agree s1 s1'"
    by simp_all
  show ?thesis
  proof (cases x)
    case (Some t)
    with b1 b2 x a1 show ?thesis
      by (simp add: main_def)
  next
    case None
    have "rel_option (rel_prod (=) agree) (try_block e1 s1) (try_block e2 s1')"
      using try_block_agree [OF assms(1-3) a1] .
    then show ?thesis
      using None b1 b2 x
      by (cases "try_block e1 s1"; cases "try_block e2 s1'")
         (auto simp add: main_def handler_def agree_def endl_def split: option.splits thrown.splits)
  qed
qed

lemma observable_run:
  fixes e1 :: "'a env" and e2 :: "'b env"
  assumes "CV_VERSION e1 = CV_VERSION e2" and "camera_opens e1 = camera_opens e2" and "fault e1 = fault e2"
  shows "observable (run e1) = observable (run e2)"
proof -
  have "agree (start :: 'a state) (start :: 'b state)"
    by (simp add: agree_def start_def)
  from main_agree [OF assms this] show ?thesis
    by (cases "main e1 start"; cases "main e2 start")
       (auto simp add: run_def observable_def agree_def)
qed

lemma guarded_frame:
  "guarded e s = Some (x, s') \<Longrightarrow> frame s' = (case x of None \<Rightarrow> Some (Mat e) | Some t \<Rightarrow> frame s)"
  by (auto simp add: guarded_def stmt_defs while_true_eq endl_def split: option.splits if_splits)

section \<open>The claims\<close>

subsection \<open>Exit status\<close>

text \<open>
  C1. Every run of \<^verbatim>\<open>main\<close> ends. A run in which no statement throws returns \<open>0\<close>, whether
  or not the camera opened (nothing is assumed of \<open>camera_opens\<close>); a run in which the
  \<^verbatim>\<open>catch\<close> block was entered returns \<open>1\<close>; and a run that returns at all returns \<open>0\<close>
  without having entered the \<^verbatim>\<open>catch\<close> block, or \<open>1\<close> having entered it once.
\<close>

theorem exit_status:
  "\<exists>st s. run e = Some (st, s) \<and>
     (fault_free e \<longrightarrow> st = Exited 0 \<and> caught s = 0) \<and>
     (0 < caught s \<longrightarrow> st = Exited 1) \<and>
     (\<forall>n. st = Exited n \<longrightarrow> n = 0 \<and> caught s = 0 \<or> n = 1 \<and> caught s = 1)"
proof -
  obtain st s where r: "run e = Some (st, s)"
    using run_total by blast
  have a: "fault_free e \<longrightarrow> st = Exited 0 \<and> caught s = 0"
    using r by (auto simp add: run_fault_free)
  have b: "0 < caught s \<longrightarrow> st = Exited 1"
    using run_cases [OF r] by auto
  have c: "\<forall>n. st = Exited n \<longrightarrow> n = 0 \<and> caught s = 0 \<or> n = 1 \<and> caught s = 1"
    using run_cases [OF r] by auto
  show ?thesis
    by (rule exI [of _ st], rule exI [of _ s]) (intro conjI r a b c)
qed

text \<open>A run without a camera returns \<open>0\<close>; a run whose capture constructor throws a
  \<^verbatim>\<open>std::exception\<close> returns \<open>1\<close>.\<close>

theorem exit_status_witness:
  "fault_free (example_env False (\<lambda>_. None))
   \<and> (\<exists>s. run (example_env False (\<lambda>_. None)) = Some (Exited 0, s) \<and> caught s = 0)
   \<and> (\<exists>s. run (example_env True (throw_at At_capture (Std_exception ''no device''))) = Some (Exited 1, s) \<and> 0 < caught s)"
proof -
  let ?ok = "example_env False (\<lambda>_. None)"
  let ?bad = "example_env True (throw_at At_capture (Std_exception ''no device''))"
  have f: "fault_free ?ok"
    by (simp add: fault_free_def example_env_def points_def)
  have "\<exists>s. run ?ok = Some (Exited 0, s) \<and> caught s = 0"
    using exit_status [of ?ok] f by auto
  moreover have "\<exists>s. run ?bad = Some (Exited 1, s) \<and> 0 < caught s"
    using exit_status [of ?bad] by (auto simp add: run_defs example_env_def throw_at_def)
  ultimately show ?thesis
    using f by simp
qed

subsection \<open>The top-level handler\<close>

text \<open>
  C2, as amended. Whenever the guarded region, entered after the two opening lines, throws a
  value derived from \<^verbatim>\<open>std::exception\<close>, the \<^verbatim>\<open>catch\<close> block is entered exactly once, the
  process returns \<open>1\<close>, standard output is left as it was at the throw, and the error stream
  gains exactly the text \<^verbatim>\<open>[ERROR] Exception: \<close> followed by what \<^verbatim>\<open>what()\<close> returns and a
  line feed: one more line, when the description itself has no line feed in it.
\<close>

theorem std_exception_caught_once:
  assumes "block [banner e, version e] start = (None, s1)"
      and "guarded e s1 = Some (Some (Std_exception what), s2)"
  shows "\<exists>s. run e = Some (Exited 1, s) \<and> caught s = 1 \<and> cout s = cout s2
           \<and> cerr s = cerr s2 @ exception_text what @ [CHR 0x0A]
           \<and> (CHR 0x0A \<notin> set what \<longrightarrow> lines_of (cerr s) = lines_of (cerr s2) @ [exception_text what])"
proof -
  have c: "caught s2 = 0" and e: "cerr s2 = [] \<or> cerr s2 = camera_error_text @ [CHR 0x0A]"
    using prelude_state [OF assms(1)] guarded_state [OF assms(2)] by auto
  have l: "CHR 0x0A \<notin> set what \<Longrightarrow> lines_of (cerr s2 @ exception_text what @ [CHR 0x0A]) = lines_of (cerr s2) @ [exception_text what]"
    using e by (auto simp add: lines_of_line exception_text_def camera_error_text_def)
  show ?thesis
    using assms c l by (simp add: run_def main_def try_block_def handler_def scope_exit_def endl_def)
qed

text \<open>Without a camera, a \<^verbatim>\<open>std::exception\<close> thrown by the output statement of line 24.\<close>

theorem std_exception_caught_once_witness:
  "block [banner (example_env False (throw_at At_initialized (Std_exception ''boom''))),
          version (example_env False (throw_at At_initialized (Std_exception ''boom'')))] start
     = (None, start\<lparr>cout := ''[INFO] Starting PENS-KAIT 2026 C++ Backend...'' @ [CHR 0x0A]
          @ ''[INFO] OpenCV Version: 4.5.1'' @ [CHR 0x0A]\<rparr>)
   \<and> (\<exists>s. run (example_env False (throw_at At_initialized (Std_exception ''boom''))) = Some (Exited 1, s)
        \<and> caught s = 1 
        \<and> cerr s = ''[ERROR] Could not open camera'' @ [CHR 0x0A] @ ''[ERROR] Exception: boom'' @ [CHR 0x0A]
        \<and> lines_of (cerr s) = [''[ERROR] Could not open camera'', ''[ERROR] Exception: boom''])"
proof -
  let ?e = "example_env False (throw_at At_initialized (Std_exception ''boom''))"
  let ?s1 = "start\<lparr>cout := ''[INFO] Starting PENS-KAIT 2026 C++ Backend...'' @ [CHR 0x0A]
          @ ''[INFO] OpenCV Version: 4.5.1'' @ [CHR 0x0A]\<rparr> :: nat state"
  let ?s2 = "?s1\<lparr>cerr := ''[ERROR] Could not open camera'' @ [CHR 0x0A], cap := Some False\<rparr>"
  have p: "block [banner ?e, version ?e] start = (None, ?s1)"
    by (simp add: stmt_defs example_env_def throw_at_def endl_def banner_text_def version_text_def start_def)
  have g: "guarded ?e ?s1 = Some (Some (Std_exception ''boom''), ?s2)"
    by (simp add: guarded_def stmt_defs example_env_def throw_at_def endl_def camera_error_text_def start_def)
  show ?thesis
    using std_exception_caught_once [OF p g] p
    by (auto simp add: exception_text_def start_def)
qed

text \<open>
  C2 as the specification states it, for every exception raised within the guarded region,
  does not hold. A thrown value that does not derive from \<^verbatim>\<open>std::exception\<close> is not caught:
  the run does not return, the \<^verbatim>\<open>catch\<close> block is not entered and the error stream stays
  empty. And a description that has a line feed in it is not written as one line.
\<close>

theorem every_exception_caught_counterexample:
  "run (example_env True (throw_at At_capture Other_thrown))
     = Some (Uncaught Other_thrown,
         \<lparr>cout = ''[INFO] Starting PENS-KAIT 2026 C++ Backend...'' @ [CHR 0x0A]
            @ ''[INFO] OpenCV Version: 4.5.1'' @ [CHR 0x0A],
          cerr = [], cap = None, frame = None, iterations = 0, caught = 0\<rparr>)
   \<and> run (example_env True (throw_at At_capture (Std_exception (''no camera'' @ [CHR 0x0A]))))
     = Some (Exited 1,
         \<lparr>cout = ''[INFO] Starting PENS-KAIT 2026 C++ Backend...'' @ [CHR 0x0A]
            @ ''[INFO] OpenCV Version: 4.5.1'' @ [CHR 0x0A],
          cerr = ''[ERROR] Exception: no camera'' @ [CHR 0x0A, CHR 0x0A],
          cap = None, frame = None, iterations = 0, caught = 1\<rparr>)
   \<and> lines_of (''[ERROR] Exception: no camera'' @ [CHR 0x0A, CHR 0x0A])
     = [''[ERROR] Exception: no camera'', []]"
  by (simp add: run_defs example_env_def throw_at_def banner_text_def version_text_def
        exception_text_def)

subsection \<open>Camera failure\<close>

text \<open>
  C3. In a run in which the camera does not open (and no statement throws), the error stream
  holds exactly one line, the camera error; the run goes on to print the initialization
  banner and to enter the loop once, never enters the \<^verbatim>\<open>catch\<close> block, and returns \<open>0\<close>.
\<close>

theorem camera_failure_logged_not_fatal:
  assumes "fault_free e" and "\<not> camera_opens e"
  shows "\<exists>s. run e = Some (Exited 0, s) \<and> cerr s = camera_error_text @ [CHR 0x0A]
           \<and> lines_of (cerr s) = [camera_error_text]
           \<and> (\<exists>before. cout s = before @ initialized_text @ [CHR 0x0A])
           \<and> iterations s = 1 \<and> caught s = 0"
  using assms by (simp add: run_fault_free lines_of_line no_lf_texts)

theorem camera_failure_logged_not_fatal_witness:
  "fault_free (example_env False (\<lambda>_. None)) \<and> \<not> camera_opens (example_env False (\<lambda>_. None))
   \<and> (\<exists>s. run (example_env False (\<lambda>_. None)) = Some (Exited 0, s)
         \<and> cerr s = ''[ERROR] Could not open camera'' @ [CHR 0x0A] \<and> iterations s = 1)"
proof -
  let ?e = "example_env False (\<lambda>_. None)"
  have f: "fault_free ?e" and c: "\<not> camera_opens ?e"
    by (simp_all add: fault_free_def example_env_def points_def)
  show ?thesis
    using camera_failure_logged_not_fatal [OF f c] f c
    by (auto simp add: camera_error_text_def)
qed

subsection \<open>Standard output\<close>

text \<open>
  C4. Every run that returns \<open>0\<close> has written to standard output exactly the startup banner,
  the version line and the initialization banner, each ended by a line feed, in this order:
  three lines, the version identifier having no line feed in it.
\<close>

theorem three_lines_on_stdout:
  assumes "run e = Some (Exited 0, s)"
  shows "cout s = banner_text @ [CHR 0x0A] @ version_text e @ [CHR 0x0A] @ initialized_text @ [CHR 0x0A]
         \<and> (CHR 0x0A \<notin> set (CV_VERSION e) \<longrightarrow>
              lines_of (cout s) = [banner_text, version_text e, initialized_text])"
  using run_Exited_0 [OF assms] by (simp add: lines_of_line no_lf_texts)

theorem three_lines_on_stdout_witness:
  "(\<exists>s. run (example_env True (\<lambda>_. None)) = Some (Exited 0, s)
      \<and> CHR 0x0A \<notin> set (CV_VERSION (example_env True (\<lambda>_. None)))
      \<and> lines_of (cout s) = [''[INFO] Starting PENS-KAIT 2026 C++ Backend...'',
            ''[INFO] OpenCV Version: 4.5.1'',
            ''[INFO] Backend Core Initialized. Waiting for tasks...''])"
proof -
  let ?e = "example_env True (\<lambda>_. None)"
  have f: "fault_free ?e"
    by (simp add: fault_free_def example_env_def points_def)
  have v: "CHR 0x0A \<notin> set (CV_VERSION ?e)"
    by (simp add: example_env_def)
  obtain s where r: "run ?e = Some (Exited 0, s)"
    using run_fault_free [OF f] by simp
  have "lines_of (cout s) = [banner_text, version_text ?e, initialized_text]"
    by (rule mp [OF conjunct2 [OF three_lines_on_stdout [OF r]] v])
  then show ?thesis
    using r v by (simp add: banner_text_def version_text_def initialized_text_def example_env_def)
qed

subsection \<open>The loop\<close>

text \<open>
  C5. In every state, whatever \<open>cap\<close> holds, the loop body breaks; so the loop returns, having
  entered its body exactly once more than before. Every run of \<^verbatim>\<open>main\<close> ends, and has
  entered the loop body at most once.
\<close>

theorem loop_exits_after_first_iteration:
  "fst (loop_body s) = Break
   \<and> while_true s = Some (s\<lparr>iterations := iterations s + 1\<rparr>)
   \<and> (\<exists>st s'. run e = Some (st, s') \<and> iterations s' \<le> 1)"
proof -
  obtain st s' where r: "run e = Some (st, s')"
    using run_total by blast
  then have "iterations s' \<le> 1"
    by (auto simp add: run_defs split: option.splits thrown.splits if_splits)
  with r show ?thesis
    by (auto simp add: loop_body_def while_true_eq)
qed

subsection \<open>What the output depends on\<close>

text \<open>
  C6. Two runs whose environments agree on the version identifier, on whether the camera opens
  and on what the statements throw have the same exit status and the same two streams, whatever
  their command lines, their environment variables and their default frames are. When no
  statement throws, the streams are fixed texts but for the version line, which is
  \<^verbatim>\<open>[INFO] OpenCV Version: \<close> followed by the value of \<^verbatim>\<open>CV_VERSION\<close> itself, and for
  the camera error line, present exactly when the camera did not open.
\<close>

theorem output_fixed_by_camera_and_library:
  fixes e1 :: "'a env" and e2 :: "'b env" and e :: "'c env"
  shows "(CV_VERSION e1 = CV_VERSION e2 \<and> camera_opens e1 = camera_opens e2 \<and> fault e1 = fault e2
            \<longrightarrow> observable (run e1) = observable (run e2))
       \<and> (fault_free e \<longrightarrow> observable (run e) =
             Some (Exited 0,
                   banner_text @ [CHR 0x0A] @ ''[INFO] OpenCV Version: '' @ CV_VERSION e @ [CHR 0x0A]
                     @ initialized_text @ [CHR 0x0A],
                   if camera_opens e then [] else camera_error_text @ [CHR 0x0A]))"
  using observable_run [of e1 e2]
  by (simp add: observable_def run_fault_free version_text_def)

text \<open>The same run started with another command line, another environment and another default
  frame.\<close>

theorem output_fixed_by_camera_and_library_witness:
  "CV_VERSION (example_env False (\<lambda>_. None))
     = CV_VERSION ((example_env False (\<lambda>_. None))\<lparr>argv := [''backend'', ''--camera'', ''1''], environ := [''OPENCV_LOG_LEVEL=SILENT''], Mat := 7\<rparr>)
   \<and> camera_opens (example_env False (\<lambda>_. None))
     = camera_opens ((example_env False (\<lambda>_. None))\<lparr>argv := [''backend'', ''--camera'', ''1''], environ := [''OPENCV_LOG_LEVEL=SILENT''], Mat := 7\<rparr>)
   \<and> fault (example_env False (\<lambda>_. None))
     = fault ((example_env False (\<lambda>_. None))\<lparr>argv := [''backend'', ''--camera'', ''1''], environ := [''OPENCV_LOG_LEVEL=SILENT''], Mat := 7\<rparr>)
   \<and> fault_free (example_env False (\<lambda>_. None))
   \<and> observable (run (example_env False (\<lambda>_. None)))
     = observable (run ((example_env False (\<lambda>_. None))\<lparr>argv := [''backend'', ''--camera'', ''1''], environ := [''OPENCV_LOG_LEVEL=SILENT''], Mat := 7\<rparr>))
   \<and> observable (run (example_env False (\<lambda>_. None)))
     = Some (Exited 0,
         ''[INFO] Starting PENS-KAIT 2026 C++ Backend...'' @ [CHR 0x0A] @ ''[INFO] OpenCV Version: 4.5.1'' @ [CHR 0x0A]
           @ ''[INFO] Backend Core Initialized. Waiting for tasks...'' @ [CHR 0x0A],
         ''[ERROR] Could not open camera'' @ [CHR 0x0A])"
proof -
  let ?e = "example_env False (\<lambda>_. None)"
  let ?e' = "?e\<lparr>argv := [''backend'', ''--camera'', ''1''], environ := [''OPENCV_LOG_LEVEL=SILENT''], Mat := 7\<rparr>"
  have h: "CV_VERSION ?e = CV_VERSION ?e'" "camera_opens ?e = camera_opens ?e'" "fault ?e = fault ?e'"
    by simp_all
  have f: "fault_free ?e"
    by (simp add: fault_free_def example_env_def points_def)
  have "observable (run ?e) = observable (run ?e')"
    using output_fixed_by_camera_and_library [of ?e ?e' ?e] h by blast
  moreover have "observable (run ?e) = Some (Exited 0,
         ''[INFO] Starting PENS-KAIT 2026 C++ Backend...'' @ [CHR 0x0A] @ ''[INFO] OpenCV Version: 4.5.1'' @ [CHR 0x0A]
           @ ''[INFO] Backend Core Initialized. Waiting for tasks...'' @ [CHR 0x0A],
         ''[ERROR] Could not open camera'' @ [CHR 0x0A])"
    using output_fixed_by_camera_and_library [of ?e ?e ?e] f
    by (simp add: banner_text_def initialized_text_def camera_error_text_def example_env_def)
  ultimately show ?thesis
    using h f by simp
qed

subsection \<open>The frame buffer\<close>

text \<open>
  C7. The loop body and the loop leave \<open>frame\<close> as it is; when the guarded region reaches its
  closing brace, \<open>frame\<close> still holds the default-constructed value it was declared with, and
  when the region throws, \<open>frame\<close> was never declared; and neither the exit status nor the
  streams of a run depend on what a default-constructed frame is.
\<close>

theorem frame_never_populated_or_read:
  "frame (snd (loop_body s)) = frame s
   \<and> (while_true s = Some s' \<longrightarrow> frame s' = frame s)
   \<and> (guarded e s = Some (None, s') \<longrightarrow> frame s' = Some (Mat e))
   \<and> (guarded e s = Some (Some t, s') \<longrightarrow> frame s' = frame s)
   \<and> observable (run (e\<lparr>Mat := m\<rparr>)) = observable (run e)"
proof -
  have "observable (run (e\<lparr>Mat := m\<rparr>)) = observable (run e)"
    by (rule observable_run) simp_all
  then show ?thesis
    using guarded_frame [of e s None s'] guarded_frame [of e s "Some t" s']
    by (auto simp add: loop_body_def while_true_eq)
qed

text \<open>The loop from a state holding a frame, the guarded region run to its end, and the
  guarded region when the declaration of line 26 throws.\<close>

theorem frame_never_populated_or_read_witness:
  "while_true (start\<lparr>frame := Some (5::nat)\<rparr>) = Some (start\<lparr>frame := Some 5, iterations := 1\<rparr>)
   \<and> frame (start\<lparr>frame := Some (5::nat), iterations := 1\<rparr>) = frame (start\<lparr>frame := Some (5::nat)\<rparr>)
   \<and> guarded (example_env True (\<lambda>_. None)) start
        = Some (None, start\<lparr>cout := ''[INFO] Backend Core Initialized. Waiting for tasks...'' @ [CHR 0x0A],
                  cap := Some True, frame := Some 0, iterations := 1\<rparr>)
   \<and> frame (start\<lparr>cout := ''[INFO] Backend Core Initialized. Waiting for tasks...'' @ [CHR 0x0A],
                  cap := Some True, frame := Some 0, iterations := 1\<rparr>) = Some (Mat (example_env True (\<lambda>_. None)))
   \<and> guarded (example_env True (throw_at At_frame Other_thrown)) (start\<lparr>frame := Some 3\<rparr>)
        = Some (Some Other_thrown, start\<lparr>cout := ''[INFO] Backend Core Initialized. Waiting for tasks...'' @ [CHR 0x0A],
                  cap := Some True, frame := Some 3\<rparr>)
   \<and> frame (start\<lparr>cout := ''[INFO] Backend Core Initialized. Waiting for tasks...'' @ [CHR 0x0A],
                  cap := Some True, frame := Some (3::nat)\<rparr>) = frame (start\<lparr>frame := Some (3::nat)\<rparr>)"
proof -
  let ?s = "start\<lparr>frame := Some (5::nat)\<rparr>"
  let ?s' = "start\<lparr>frame := Some (5::nat), iterations := 1\<rparr>"
  let ?e = "example_env True (\<lambda>_. None)"
  let ?g = "start\<lparr>cout := ''[INFO] Backend Core Initialized. Waiting for tasks...'' @ [CHR 0x0A],
                  cap := Some True, frame := Some (0::nat), iterations := 1\<rparr>"
  let ?e2 = "example_env True (throw_at At_frame Other_thrown)"
  let ?s2 = "start\<lparr>frame := Some (3::nat)\<rparr>"
  let ?g2 = "start\<lparr>cout := ''[INFO] Backend Core Initialized. Waiting for tasks...'' @ [CHR 0x0A],
                  cap := Some True, frame := Some (3::nat)\<rparr>"
  have w: "while_true ?s = Some ?s'"
    by (simp add: while_true_eq start_def)
  have g: "guarded ?e start = Some (None, ?g)"
    by (simp add: guarded_def stmt_defs while_true_eq example_env_def start_def endl_def initialized_text_def)
  have g2: "guarded ?e2 ?s2 = Some (Some Other_thrown, ?g2)"
    by (simp add: guarded_def stmt_defs example_env_def throw_at_def start_def endl_def initialized_text_def)
  have "frame ?s' = frame ?s"
    using frame_never_populated_or_read [of ?s ?s' ?e Other_thrown 0] w by blast
  moreover have "frame ?g = Some (Mat ?e)"
    using frame_never_populated_or_read [of start ?g ?e Other_thrown 0] g by blast
  moreover have "frame ?g2 = frame ?s2"
    using frame_never_populated_or_read [of ?s2 ?g2 ?e2 Other_thrown 0] g2 by blast
  ultimately show ?thesis
    using w g g2 by simp
qed

subsection \<open>Thrown values that are not exceptions of the standard hierarchy\<close>

text \<open>
  C8. Whenever the guarded region throws a value that does not derive from
  \<^verbatim>\<open>std::exception\<close>, the \<^verbatim>\<open>catch\<close> block is not entered, nothing is written after the
  throw (the error stream is empty or holds the camera error line only), and the run does not
  return: the value leaves \<^verbatim>\<open>main\<close>.
\<close>

theorem other_thrown_values_leave_main:
  assumes "block [banner e, version e] start = (None, s1)"
      and "guarded e s1 = Some (Some Other_thrown, s2)"
  shows "\<exists>s. run e = Some (Uncaught Other_thrown, s) \<and> caught s = 0
           \<and> cerr s = cerr s2 \<and> cout s = cout s2
           \<and> (cerr s = [] \<or> cerr s = camera_error_text @ [CHR 0x0A])"
proof -
  have "caught s2 = 0" and "cerr s2 = [] \<or> cerr s2 = camera_error_text @ [CHR 0x0A]"
    using prelude_state [OF assms(1)] guarded_state [OF assms(2)] by auto
  then show ?thesis
    using assms by (simp add: run_def main_def try_block_def scope_exit_def)
qed

text \<open>The capture constructor throws such a value.\<close>

theorem other_thrown_values_leave_main_witness:
  "block [banner (example_env True (throw_at At_capture Other_thrown)),
          version (example_env True (throw_at At_capture Other_thrown))] start
     = (None, start\<lparr>cout := ''[INFO] Starting PENS-KAIT 2026 C++ Backend...'' @ [CHR 0x0A]
          @ ''[INFO] OpenCV Version: 4.5.1'' @ [CHR 0x0A]\<rparr>)
   \<and> guarded (example_env True (throw_at At_capture Other_thrown))
        (start\<lparr>cout := ''[INFO] Starting PENS-KAIT 2026 C++ Backend...'' @ [CHR 0x0A]
          @ ''[INFO] OpenCV Version: 4.5.1'' @ [CHR 0x0A]\<rparr>)
     = Some (Some Other_thrown, start\<lparr>cout := ''[INFO] Starting PENS-KAIT 2026 C++ Backend...'' @ [CHR 0x0A]
          @ ''[INFO] OpenCV Version: 4.5.1'' @ [CHR 0x0A]\<rparr>)
   \<and> (\<exists>s. run (example_env True (throw_at At_capture Other_thrown)) = Some (Uncaught Other_thrown, s)
        \<and> caught s = 0 \<and> cerr s = [])"
proof -
  let ?e = "example_env True (throw_at At_capture Other_thrown)"
  let ?s1 = "start\<lparr>cout := ''[INFO] Starting PENS-KAIT 2026 C++ Backend...'' @ [CHR 0x0A]
          @ ''[INFO] OpenCV Version: 4.5.1'' @ [CHR 0x0A]\<rparr> :: nat state"
  have p: "block [banner ?e, version ?e] start = (None, ?s1)"
    by (simp add: stmt_defs example_env_def throw_at_def endl_def banner_text_def version_text_def start_def)
  have g: "guarded ?e ?s1 = Some (Some Other_thrown, ?s1)"
    by (simp add: guarded_def stmt_defs example_env_def throw_at_def)
  show ?thesis
    using other_thrown_values_leave_main [OF p g] p g
    by (auto simp add: start_def)
qed

subsection \<open>Standard output does not depend on the camera\<close>

text \<open>
  C9. When no statement throws, the run in which the camera opens and the run in which it does
  not both return \<open>0\<close> with the same standard output, the three lines of C4 in their order
  (so the initialization banner is printed in both), and both enter the loop once.
\<close>

theorem same_stdout_with_and_without_camera:
  assumes "fault_free e"
  shows "\<exists>s s'. run (e\<lparr>camera_opens := True\<rparr>) = Some (Exited 0, s)
           \<and> run (e\<lparr>camera_opens := False\<rparr>) = Some (Exited 0, s')
           \<and> cout s = cout s'
           \<and> cout s = banner_text @ [CHR 0x0A] @ version_text e @ [CHR 0x0A] @ initialized_text @ [CHR 0x0A]
           \<and> iterations s = 1 \<and> iterations s' = 1"
proof -
  have "fault_free (e\<lparr>camera_opens := b\<rparr>)" for b
    using assms by (simp add: fault_free_def)
  then show ?thesis
    by (simp add: run_fault_free version_text_def)
qed

theorem same_stdout_with_and_without_camera_witness:
  "fault_free (example_env True (\<lambda>_. None))
   \<and> (\<exists>s s'. run ((example_env True (\<lambda>_. None))\<lparr>camera_opens := True\<rparr>) = Some (Exited 0, s)
           \<and> run ((example_env True (\<lambda>_. None))\<lparr>camera_opens := False\<rparr>) = Some (Exited 0, s')
           \<and> cout s = cout s'
           \<and> cout s = banner_text @ [CHR 0x0A] @ version_text (example_env True (\<lambda>_. None)) @ [CHR 0x0A]
                 @ initialized_text @ [CHR 0x0A]
           \<and> iterations s = 1 \<and> iterations s' = 1)"
proof -
  have f: "fault_free (example_env True (\<lambda>_. None))"
    by (simp add: fault_free_def example_env_def points_def)
  show ?thesis
    by (rule conjI [OF f same_stdout_with_and_without_camera [OF f]])
qed

subsection \<open>The two opening lines are outside the guarded region\<close>

text \<open>
  C10. A run that returns \<open>1\<close> has entered the \<^verbatim>\<open>catch\<close> block, and its standard output
  starts with the startup banner and the version line. A value thrown by the statement that
  prints the banner, or by the one that prints the version, leaves \<^verbatim>\<open>main\<close> uncaught, even
  when it derives from \<^verbatim>\<open>std::exception\<close>: the run does not return and nothing more is
  written.
\<close>

theorem opening_lines_precede_guarded_region:
  "(run e = Some (Exited 1, s) \<longrightarrow>
      caught s = 1 \<and> (\<exists>rest. cout s = banner_text @ [CHR 0x0A] @ version_text e @ [CHR 0x0A] @ rest))
   \<and> (fault e At_banner = Some t \<longrightarrow> run e = Some (Uncaught t, start))
   \<and> (fault e At_banner = None \<and> fault e At_version = Some t \<longrightarrow>
        run e = Some (Uncaught t, start\<lparr>cout := banner_text @ [CHR 0x0A]\<rparr>))"
proof -
  have "caught s = 1 \<and> (\<exists>rest. cout s = banner_text @ [CHR 0x0A] @ version_text e @ [CHR 0x0A] @ rest)"
    if "run e = Some (Exited 1, s)"
    using that by (auto simp add: run_defs split: option.splits thrown.splits if_splits)
  moreover have "run e = Some (Uncaught t, start)" if "fault e At_banner = Some t"
    using that by (simp add: run_def main_def banner_def stmt_def)
  moreover have "run e = Some (Uncaught t, start\<lparr>cout := banner_text @ [CHR 0x0A]\<rparr>)"
    if "fault e At_banner = None" "fault e At_version = Some t"
    using that by (simp add: run_def main_def banner_def version_def stmt_def endl_def start_def)
  ultimately show ?thesis
    by blast
qed

text \<open>A \<^verbatim>\<open>std::exception\<close> thrown at line 26, at line 6 and at line 9.\<close>

theorem opening_lines_precede_guarded_region_witness:
  "(\<exists>s. run (example_env True (throw_at At_frame (Std_exception ''bad alloc''))) = Some (Exited 1, s)
       \<and> caught s = 1
       \<and> cout s = ''[INFO] Starting PENS-KAIT 2026 C++ Backend...'' @ [CHR 0x0A]
           @ ''[INFO] OpenCV Version: 4.5.1'' @ [CHR 0x0A]
           @ ''[INFO] Backend Core Initialized. Waiting for tasks...'' @ [CHR 0x0A])
   \<and> fault (example_env True (throw_at At_banner (Std_exception ''stream''))) At_banner = Some (Std_exception ''stream'')
   \<and> run (example_env True (throw_at At_banner (Std_exception ''stream''))) = Some (Uncaught (Std_exception ''stream''), start)
   \<and> fault (example_env True (throw_at At_version (Std_exception ''stream''))) At_banner = None
   \<and> fault (example_env True (throw_at At_version (Std_exception ''stream''))) At_version = Some (Std_exception ''stream'')
   \<and> run (example_env True (throw_at At_version (Std_exception ''stream'')))
       = Some (Uncaught (Std_exception ''stream''),
               start\<lparr>cout := ''[INFO] Starting PENS-KAIT 2026 C++ Backend...'' @ [CHR 0x0A]\<rparr>)"
proof -
  let ?e1 = "example_env True (throw_at At_frame (Std_exception ''bad alloc''))"
  let ?e2 = "example_env True (throw_at At_banner (Std_exception ''stream''))"
  let ?e3 = "example_env True (throw_at At_version (Std_exception ''stream''))"
  let ?s = "\<lparr>cout = ''[INFO] Starting PENS-KAIT 2026 C++ Backend...'' @ [CHR 0x0A]
           @ ''[INFO] OpenCV Version: 4.5.1'' @ [CHR 0x0A]
           @ ''[INFO] Backend Core Initialized. Waiting for tasks...'' @ [CHR 0x0A],
           cerr = ''[ERROR] Exception: bad alloc'' @ [CHR 0x0A], cap = None, frame = None,
           iterations = 0, caught = 1\<rparr> :: nat state"
  have r: "run ?e1 = Some (Exited 1, ?s)"
    by (simp add: run_defs example_env_def throw_at_def banner_text_def version_text_def
          initialized_text_def exception_text_def)
  have h2: "fault ?e2 At_banner = Some (Std_exception ''stream'')"
    and h3: "fault ?e3 At_banner = None" "fault ?e3 At_version = Some (Std_exception ''stream'')"
    by (simp_all add: example_env_def throw_at_def)
  have "caught ?s = 1"
    using opening_lines_precede_guarded_region [of ?e1 ?s Other_thrown] r by blast
  moreover have "run ?e2 = Some (Uncaught (Std_exception ''stream''), start)"
    using opening_lines_precede_guarded_region [of ?e2 start "Std_exception ''stream''"] h2 by blast
  moreover have "run ?e3 = Some (Uncaught (Std_exception ''stream''), start\<lparr>cout := banner_text @ [CHR 0x0A]\<rparr>)"
    using opening_lines_precede_guarded_region [of ?e3 start "Std_exception ''stream''"] h3 by blast
  ultimately show ?thesis
    using r h2 h3 by (simp add: banner_text_def)
qed

end
